theory Spec2Isabelle
  imports Main "HOL-Library.Sublist"
begin

section \<open>Python values: exceptions, text, list indexing\<close>

text \<open>
  The validator of \<^verbatim>\<open>csv_file_website_to_s3_lambda.py\<close> is embedded with its exceptions
  as values. Each exception carries the text \<^verbatim>\<open>str(e)\<close> gives; the three classes below are
  the ones the statements of \<^verbatim>\<open>validate_csv\<close> can raise on a \<^verbatim>\<open>str\<close> argument, and all
  three derive from \<^verbatim>\<open>Exception\<close>. A computation that may raise has type
  \<open>py_exn + 'a\<close>, with \<open>Inl\<close> for the raised exception.
\<close>

datatype py_exn = ValueError string | IndexError string | CsvError string

fun exn_str :: "py_exn \<Rightarrow> string" where
  "exn_str (ValueError m) = m"
| "exn_str (IndexError m) = m"
| "exn_str (CsvError m) = m"

fun is_ValueError :: "py_exn \<Rightarrow> bool" where
  "is_ValueError (ValueError m) = True"
| "is_ValueError (IndexError m) = False"
| "is_ValueError (CsvError m) = False"

fun is_Exception :: "py_exn \<Rightarrow> bool" where
  "is_Exception (ValueError m) = True"
| "is_Exception (IndexError m) = True"
| "is_Exception (CsvError m) = True"

text \<open>\<^verbatim>\<open>try: body except C as e: handler(e)\<close>, where \<open>catches\<close> tests the class \<^verbatim>\<open>C\<close>.\<close>

definition try_except ::
  "(py_exn + 'a) \<Rightarrow> (py_exn \<Rightarrow> bool) \<Rightarrow> (py_exn \<Rightarrow> py_exn + 'a) \<Rightarrow> py_exn + 'a" where
  "try_except body catches handler =
     (case body of
        Inl e \<Rightarrow> if catches e then handler e else Inl e
      | Inr v \<Rightarrow> Inr v)"

text \<open>\<^verbatim>\<open>xs[i]\<close> for an index \<open>i \<ge> 0\<close>: out of range it raises \<^verbatim>\<open>IndexError\<close>.\<close>

definition get_item :: "'a list \<Rightarrow> nat \<Rightarrow> py_exn + 'a" where
  "get_item xs i =
     (if i < length xs then Inr (xs ! i) else Inl (IndexError ''list index out of range''))"

text \<open>\<^verbatim>\<open>str(n)\<close> of an integer, as the f-strings of the source render it.\<close>

fun str_nat :: "nat \<Rightarrow> string" where
  "str_nat n =
     (if n < 10 then [''0123456789'' ! n]
      else str_nat (n div 10) @ [''0123456789'' ! (n mod 10)])"

declare str_nat.simps [simp del]

definition str_int :: "int \<Rightarrow> string" where
  "str_int i = (if i < 0 then CHR ''-'' # str_nat (nat (- i)) else str_nat (nat i))"

section \<open>The library the validator calls\<close>

text \<open>
  \<^verbatim>\<open>csv.reader(io.StringIO(csv_data))\<close> is an iterator: each \<^verbatim>\<open>next\<close> yields a record
  (a list of strings), or raises \<^verbatim>\<open>csv.Error\<close>, or ends the iteration. Over a finite
  text it is the finite sequence below.
\<close>

datatype reader = Stop | Row "string list" reader | CsvFail string

text \<open>
  The library functions are parameters of the embedding, so every theorem holds for
  whatever the installed Python makes of a text:
  \<^item> \<open>csv_reader s\<close> is the iteration of \<^verbatim>\<open>csv.reader(io.StringIO(s))\<close>;
  \<^item> \<open>int_error s\<close> is \<open>None\<close> when \<^verbatim>\<open>int(s)\<close> returns, and \<open>Some m\<close> when it raises
    \<^verbatim>\<open>ValueError(m)\<close> (the only exception \<^verbatim>\<open>int\<close> raises on a string);
  \<^item> \<open>float_error s\<close> is the same for \<^verbatim>\<open>float(s)\<close>;
  \<^item> \<open>repr_str s\<close> is \<^verbatim>\<open>repr(s)\<close> of a string.
\<close>

record py_lib =
  csv_reader :: "string \<Rightarrow> reader"
  int_error :: "string \<Rightarrow> string option"
  float_error :: "string \<Rightarrow> string option"
  repr_str :: "string \<Rightarrow> string"

definition int_py :: "py_lib \<Rightarrow> string \<Rightarrow> py_exn + unit" where
  "int_py lib s = (case int_error lib s of Some m \<Rightarrow> Inl (ValueError m) | None \<Rightarrow> Inr ())"

definition float_py :: "py_lib \<Rightarrow> string \<Rightarrow> py_exn + unit" where
  "float_py lib s = (case float_error lib s of Some m \<Rightarrow> Inl (ValueError m) | None \<Rightarrow> Inr ())"

text \<open>\<^verbatim>\<open>', '.join(xs)\<close> and \<^verbatim>\<open>repr\<close> of a list of strings, which \<^verbatim>\<open>{row}\<close> renders.\<close>

fun join_comma :: "string list \<Rightarrow> string" where
  "join_comma [] = []"
| "join_comma [x] = x"
| "join_comma (x # y # ys) = x @ '', '' @ join_comma (y # ys)"

definition repr_row :: "py_lib \<Rightarrow> string list \<Rightarrow> string" where
  "repr_row lib row = ''['' @ join_comma (map (repr_str lib) row) @ '']''"

section \<open>The validator\<close>

definition EXPECTED_HEADER :: "string list" where
  "EXPECTED_HEADER =
     [''Episode'', ''Step'', ''Health'', ''Reward'',
      ''XVelocity'', ''YVelocity'', ''ZVelocity'',
      ''XPosition'', ''YPosition'', ''ZPosition'',
      ''ActionForwardWithDescription'', ''ActionRotateWithDescription'',
      ''WasAgentFrozen?'', ''WasNotificationShown?'',
      ''WasRewardDispensed?'', ''DispensedRewardType'', ''CollectedRewardType'',
      ''WasSpawnerButtonTriggered?'', ''CombinedSpawnerInfo'',
      ''DataZoneMessage'', ''ActiveCamera'', ''CombinedRaycastData'']"

definition max_rows :: int where
  "max_rows = 100000"

record ValidationResult =
  valid :: bool
  error :: "string option"
  row_count :: "int option"

definition invalid :: "string \<Rightarrow> ValidationResult" where
  "invalid msg = \<lparr>valid = False, error = Some msg, row_count = None\<rparr>"

text \<open>
  The \<^verbatim>\<open>try\<close> block of the numeric checks: the statements run in order and the first
  exception ends the block.
\<close>

definition convert_at :: "(string \<Rightarrow> py_exn + unit) \<Rightarrow> string list \<Rightarrow> nat \<Rightarrow> py_exn + unit" where
  "convert_at conv row i = (case get_item row i of Inl e \<Rightarrow> Inl e | Inr s \<Rightarrow> conv s)"

fun run_all :: "(py_exn + unit) list \<Rightarrow> py_exn + unit" where
  "run_all [] = Inr ()"
| "run_all (Inl e # rest) = Inl e"
| "run_all (Inr u # rest) = run_all rest"

definition numeric_checks :: "py_lib \<Rightarrow> string list \<Rightarrow> py_exn + unit" where
  "numeric_checks lib row =
     run_all ([convert_at (int_py lib) row 0, convert_at (int_py lib) row 1,
               convert_at (float_py lib) row 2, convert_at (float_py lib) row 3]
              @ map (convert_at (float_py lib) row) [4..<10])"

text \<open>
  One pass through the body of the \<^verbatim>\<open>for\<close> loop, entered with the loop's \<^verbatim>\<open>row_num\<close>
  and the \<^verbatim>\<open>row_count\<close> of before the pass. The pass ends in \<^verbatim>\<open>return\<close>, or goes on
  to the next record (by \<^verbatim>\<open>continue\<close> or at the end of the body) with the new count.
\<close>

datatype step = Return ValidationResult | Next int

definition loop_body :: "py_lib \<Rightarrow> int \<Rightarrow> int \<Rightarrow> string list \<Rightarrow> py_exn + step" where
  "loop_body lib row_num cnt row =
     (let cnt = cnt + 1 in
      if cnt > max_rows then
        Inr (Return (invalid (''Too many rows (max '' @ str_int max_rows @ '')'')))
      else if int (length row) \<noteq> int (length EXPECTED_HEADER) then
        (case get_item row 0 of
           Inl e \<Rightarrow> Inl e
         | Inr field \<Rightarrow>
             if prefix ''Positive Goals Collected'' field then Inr (Next cnt)
             else Inr (Return (invalid
               (''Row '' @ str_int row_num @ '': Expected '' @ str_int (int (length EXPECTED_HEADER))
                @ '' columns, got '' @ str_int (int (length row)) @ ''. ('' @ repr_row lib row @ '')''))))
      else
        try_except
          (case numeric_checks lib row of Inl e \<Rightarrow> Inl e | Inr u \<Rightarrow> Inr (Next cnt))
          is_ValueError
          (\<lambda>e. Inr (Return (invalid
             (''Row '' @ str_int row_num @ '': Invalid numeric values in required fields'')))))"

text \<open>
  \<^verbatim>\<open>for row_num, row in enumerate(reader, start=2)\<close>: the loop ends with a verdict
  returned from inside, with the final count when the reader is exhausted, or with the
  exception the reader or the body raised.
\<close>

datatype loop_exit = Returned ValidationResult | Finished int

fun for_rows :: "py_lib \<Rightarrow> int \<Rightarrow> int \<Rightarrow> reader \<Rightarrow> py_exn + loop_exit" where
  "for_rows lib row_num cnt Stop = Inr (Finished cnt)"
| "for_rows lib row_num cnt (CsvFail m) = Inl (CsvError m)"
| "for_rows lib row_num cnt (Row row rest) =
     (case loop_body lib row_num cnt row of
        Inl e \<Rightarrow> Inl e
      | Inr (Return v) \<Rightarrow> Inr (Returned v)
      | Inr (Next cnt') \<Rightarrow> for_rows lib (row_num + 1) cnt' rest)"

text \<open>The statements inside the outer \<^verbatim>\<open>try\<close> of \<^verbatim>\<open>validate_csv\<close>.\<close>

definition validate_body :: "py_lib \<Rightarrow> string \<Rightarrow> py_exn + ValidationResult" where
  "validate_body lib csv_data =
     (case csv_reader lib csv_data of
        CsvFail m \<Rightarrow> Inl (CsvError m)
      | Stop \<Rightarrow> Inr (invalid ''Empty CSV file'')
      | Row header rest \<Rightarrow>
          if header \<noteq> EXPECTED_HEADER then
            Inr (invalid (''Header mismatch. Expected '' @ str_int (int (length EXPECTED_HEADER))
                          @ '' columns, got '' @ str_int (int (length header))))
          else
            (case for_rows lib 2 0 rest of
               Inl e \<Rightarrow> Inl e
             | Inr (Returned v) \<Rightarrow> Inr v
             | Inr (Finished cnt) \<Rightarrow>
                 if cnt = 0 then Inr (invalid ''No data rows found'')
                 else Inr \<lparr>valid = True, error = None, row_count = Some cnt\<rparr>))"

definition validate_csv :: "py_lib \<Rightarrow> string \<Rightarrow> py_exn + ValidationResult" where
  "validate_csv lib csv_data =
     try_except (validate_body lib csv_data) is_Exception
       (\<lambda>e. Inr (invalid (''CSV parsing error: '' @ exn_str e)))"

section \<open>The request handler\<close>

text \<open>
  The event is the dictionary of the request, with the string-valued fields the handler's
  annotations give it. A string stands for its UTF-8 bytes, so the size the handler
  measures (\<^verbatim>\<open>len(csv_data.encode('utf-8'))\<close>) is its length. What the handler takes from
  its surroundings is a parameter:
  \<^item> \<open>pylib\<close>, the library of the validator;
  \<^item> \<open>session_token\<close>, what \<^verbatim>\<open>generate_session_id()\<close> returns in this invocation;
  \<^item> \<open>utcnow_iso\<close>, what \<^verbatim>\<open>datetime.utcnow().isoformat()\<close> returns;
  \<^item> \<open>put_object\<close>, the storage client: \<open>None\<close> when the put returns, \<open>Some m\<close> when it
    raises an exception with message \<open>m\<close>;
  \<^item> \<open>b64decode_utf8\<close>, \<^verbatim>\<open>base64.b64decode(s).decode('utf-8')\<close>: \<open>Inl m\<close> when it raises
    with message \<open>m\<close>;
  \<^item> \<open>repr_event\<close>, how an f-string renders the event.
\<close>

record s3_put =
  Bucket :: string
  Key :: string
  Body :: string
  ContentType :: string
  Metadata :: "(string \<times> string) list"

datatype json = JStr string | JInt int | JNull

record response =
  statusCode :: int
  headers :: "(string \<times> string) list"
  body :: "(string \<times> json) list"

record env =
  pylib :: py_lib
  session_token :: string
  utcnow_iso :: string
  put_object :: "s3_put \<Rightarrow> string option"
  b64decode_utf8 :: "string \<Rightarrow> string + string"
  repr_event :: "(string \<rightharpoonup> string) \<Rightarrow> string"

definition BUCKET_NAME :: string where
  "BUCKET_NAME = ''test-csv-file-storage''"

definition MAX_FILE_SIZE :: int where
  "MAX_FILE_SIZE = 10 * 1024 * 1024"

text \<open>The body of a response is kept as the dictionary handed to \<^verbatim>\<open>json.dumps\<close>.\<close>

definition error_response :: "int \<Rightarrow> string \<Rightarrow> response" where
  "error_response status_code message =
     \<lparr>statusCode = status_code,
      headers = [(''Access-Control-Allow-Origin'', ''*''),
                 (''Access-Control-Allow-Headers'', ''Content-Type''),
                 (''Content-Type'', ''application/json'')],
      body = [(''error'', JStr message)]\<rparr>"

text \<open>\<^verbatim>\<open>str\<close> of an optional string, and of an optional integer: \<^verbatim>\<open>None\<close> prints as its name.\<close>

definition str_opt :: "string option \<Rightarrow> string" where
  "str_opt v = (case v of None \<Rightarrow> ''None'' | Some s \<Rightarrow> s)"

definition str_int_opt :: "int option \<Rightarrow> string" where
  "str_int_opt v = (case v of None \<Rightarrow> ''None'' | Some n \<Rightarrow> str_int n)"

definition json_int_opt :: "int option \<Rightarrow> json" where
  "json_int_opt v = (case v of None \<Rightarrow> JNull | Some n \<Rightarrow> JInt n)"

text \<open>
  The steps before the validation: the text to validate, or the response of an early
  \<^verbatim>\<open>return\<close>.
\<close>

definition decoded_csv :: "env \<Rightarrow> (string \<rightharpoonup> string) \<Rightarrow> response + string" where
  "decoded_csv env event =
     (let encoding = (case event ''encoding'' of None \<Rightarrow> ''plain'' | Some e \<Rightarrow> e) in
      case event ''csv_data'' of
        None \<Rightarrow> Inl (error_response 400
                  (''Missing csv_data in request body. Got '' @ repr_event env event))
      | Some csv_data \<Rightarrow>
          if csv_data = [] then
            Inl (error_response 400
                  (''Missing csv_data in request body. Got '' @ repr_event env event))
          else
            (case (if encoding = ''base64'' then b64decode_utf8 env csv_data else Inr csv_data) of
               Inl m \<Rightarrow> Inl (error_response 400 (''Invalid base64 encoding: '' @ m))
             | Inr csv_data \<Rightarrow>
                 if int (length csv_data) > MAX_FILE_SIZE then
                   Inl (error_response 413
                         (''File too large. Max size: '' @ str_int MAX_FILE_SIZE @ '' bytes''))
                 else Inr csv_data))"

text \<open>
  The handler returns its response; the second component lists the puts it asked of the
  storage client. An exception of the validator would reach the handler's outer
  \<^verbatim>\<open>except\<close>.
\<close>

definition lambda_handler :: "env \<Rightarrow> (string \<rightharpoonup> string) \<Rightarrow> response \<times> s3_put list" where
  "lambda_handler env event =
     (let session_id = (case event ''session_id'' of None \<Rightarrow> session_token env | Some s \<Rightarrow> s);
          user_id = event ''user_id'' in
      case decoded_csv env event of
        Inl early \<Rightarrow> (early, [])
      | Inr csv_data \<Rightarrow>
          (case validate_csv (pylib env) csv_data of
             Inl e \<Rightarrow> (error_response 500 ''Internal server error'', [])
           | Inr validation_result \<Rightarrow>
               if \<not> valid validation_result then
                 (error_response 400 (''Invalid CSV: '' @ str_opt (error validation_result)), [])
               else
                 (let s3_key = str_opt user_id @ ''/'' @ session_id @ ''.csv'';
                      request = \<lparr>Bucket = BUCKET_NAME, Key = s3_key, Body = csv_data,
                                 ContentType = ''text/csv'',
                                 Metadata = [(''session_id'', session_id),
                                             (''row_count'', str_int_opt (row_count validation_result)),
                                             (''upload_timestamp'', utcnow_iso env)]\<rparr>
                  in case put_object env request of
                       Some m \<Rightarrow> (error_response 500 (''S3 upload failed: '' @ m), [request])
                     | None \<Rightarrow>
                         (\<lparr>statusCode = 200,
                           headers = [(''Access-Control-Allow-Origin'', ''*''),
                                      (''Access-Control-Allow-Headers'', ''Content-Type''),
                                      (''Content-Type'', ''application/json'')],
                           body = [(''message'', JStr ''Telemetry uploaded successfully''),
                                   (''s3_key'', JStr s3_key),
                                   (''row_count'', json_int_opt (row_count validation_result)),
                                   (''session_id'', JStr session_id)]\<rparr>, [request]))))"

section \<open>Rows and records of an input\<close>

text \<open>The reader that yields the records \<open>rs\<close> and then goes on as \<open>rest\<close>.\<close>

fun yield_rows :: "string list list \<Rightarrow> reader \<Rightarrow> reader" where
  "yield_rows [] rest = rest"
| "yield_rows (r # rs) rest = Row r (yield_rows rs rest)"

text \<open>
  A well-formed data row has the 22 columns of the schema, integers in columns 0 and 1
  and floats in columns 2 to 9. A summary row has another number of columns and a first
  field that starts with the marker.
\<close>

definition well_formed :: "py_lib \<Rightarrow> string list \<Rightarrow> bool" where
  "well_formed lib row \<longleftrightarrow>
     length row = 22 \<and> int_error lib (row ! 0) = None \<and> int_error lib (row ! 1) = None
     \<and> (\<forall>i \<in> set [2..<10]. float_error lib (row ! i) = None)"

definition summary_row :: "string list \<Rightarrow> bool" where
  "summary_row row \<longleftrightarrow>
     length row \<noteq> 22 \<and> row \<noteq> [] \<and> prefix ''Positive Goals Collected'' (row ! 0)"

definition accepted :: "py_lib \<Rightarrow> string list \<Rightarrow> bool" where
  "accepted lib row \<longleftrightarrow> well_formed lib row \<or> summary_row row"

section \<open>A plain instance of the library\<close>

text \<open>
  For concrete inputs the library is instantiated with the behaviour of CPython on plain
  text: the reader on text without quote characters and carriage returns (one record per
  line, an empty line giving the empty record, fields split at commas), \<^verbatim>\<open>int\<close> and
  \<^verbatim>\<open>float\<close> on signed decimal literals without exponent, whitespace or underscores (any
  other string is taken to raise, which is right for the words used below), and
  \<^verbatim>\<open>repr\<close> on strings without quotes, backslashes and control characters.
\<close>

fun lines_acc :: "string \<Rightarrow> string \<Rightarrow> string list" where
  "lines_acc acc [] = (if acc = [] then [] else [rev acc])"
| "lines_acc acc (c # cs) =
     (if c = CHR 0x0A then rev acc # lines_acc [] cs else lines_acc (c # acc) cs)"

fun fields_acc :: "string \<Rightarrow> string \<Rightarrow> string list" where
  "fields_acc acc [] = [rev acc]"
| "fields_acc acc (c # cs) =
     (if c = CHR '','' then rev acc # fields_acc [] cs else fields_acc (c # acc) cs)"

definition record_of :: "string \<Rightarrow> string list" where
  "record_of line = (if line = [] then [] else fields_acc [] line)"

definition plain_reader :: "string \<Rightarrow> reader" where
  "plain_reader text = yield_rows (map record_of (lines_acc [] text)) Stop"

definition is_digit :: "char \<Rightarrow> bool" where
  "is_digit c \<longleftrightarrow> c \<in> set ''0123456789''"

definition unsigned :: "string \<Rightarrow> string" where
  "unsigned s = (case s of [] \<Rightarrow> [] | c # cs \<Rightarrow> if c = CHR ''+'' \<or> c = CHR ''-'' then cs else s)"

definition plain_repr :: "string \<Rightarrow> string" where
  "plain_repr s = [CHR 0x27] @ s @ [CHR 0x27]"

definition plain_int_error :: "string \<Rightarrow> string option" where
  "plain_int_error s =
     (if unsigned s \<noteq> [] \<and> list_all is_digit (unsigned s) then None
      else Some (''invalid literal for int() with base 10: '' @ plain_repr s))"

definition plain_float_error :: "string \<Rightarrow> string option" where
  "plain_float_error s =
     (let whole = takeWhile is_digit (unsigned s);
          rest = dropWhile is_digit (unsigned s);
          ok = (case rest of
                  [] \<Rightarrow> whole \<noteq> []
                | c # frac \<Rightarrow> c = CHR ''.'' \<and> list_all is_digit frac \<and> (whole \<noteq> [] \<or> frac \<noteq> []))
      in if ok then None else Some (''could not convert string to float: '' @ plain_repr s))"

definition plain_lib :: py_lib where
  "plain_lib = \<lparr>csv_reader = plain_reader, int_error = plain_int_error,
                float_error = plain_float_error, repr_str = plain_repr\<rparr>"

text \<open>The header line, a well-formed data line and its record.\<close>

definition header_line :: string where
  "header_line = ''Episode,Step,Health,Reward,XVelocity,YVelocity,ZVelocity,XPosition,YPosition,ZPosition,ActionForwardWithDescription,ActionRotateWithDescription,WasAgentFrozen?,WasNotificationShown?,WasRewardDispensed?,DispensedRewardType,CollectedRewardType,WasSpawnerButtonTriggered?,CombinedSpawnerInfo,DataZoneMessage,ActiveCamera,CombinedRaycastData''"

definition good_line :: string where
  "good_line = ''1,2,100.0,-0.5,0,0,0,1.5,0.5,2,a,b,c,d,e,f,g,h,i,j,k,l''"

definition good_row :: "string list" where
  "good_row = [''1'', ''2'', ''100.0'', ''-0.5'', ''0'', ''0'', ''0'', ''1.5'', ''0.5'', ''2'',
               ''a'', ''b'', ''c'', ''d'', ''e'', ''f'', ''g'', ''h'', ''i'', ''j'', ''k'', ''l'']"

text \<open>The text of a header line followed by the given lines, each ended by a newline.\<close>

definition csv_text :: "string list \<Rightarrow> string" where
  "csv_text lines = concat (map (\<lambda>l. l @ [CHR 0x0A]) (header_line # lines))"

text \<open>
  A data line whose first column is no integer, and a line of 22 columns whose first
  field starts with the marker of the summary rows, each with its record.
\<close>

definition bad_line :: string where
  "bad_line = ''abc,2,100.0,-0.5,0,0,0,1.5,0.5,2,a,b,c,d,e,f,g,h,i,j,k,l''"

definition bad_row :: "string list" where
  "bad_row = [''abc'', ''2'', ''100.0'', ''-0.5'', ''0'', ''0'', ''0'', ''1.5'', ''0.5'', ''2'',
              ''a'', ''b'', ''c'', ''d'', ''e'', ''f'', ''g'', ''h'', ''i'', ''j'', ''k'', ''l'']"

definition marker_line :: string where
  "marker_line = ''Positive Goals Collected,2,100.0,-0.5,0,0,0,1.5,0.5,2,a,b,c,d,e,f,g,h,i,j,k,l''"

definition marker_row :: "string list" where
  "marker_row = [''Positive Goals Collected'', ''2'', ''100.0'', ''-0.5'', ''0'', ''0'', ''0'',
                 ''1.5'', ''0.5'', ''2'',
                 ''a'', ''b'', ''c'', ''d'', ''e'', ''f'', ''g'', ''h'', ''i'', ''j'', ''k'', ''l'']"

section \<open>Auxiliary definitions\<close>

text \<open>
  Reading a decimal text back, used to show that \<open>str_int\<close> tells two row numbers
  apart.
\<close>

definition digit_val :: "char \<Rightarrow> nat" where
  "digit_val c = length (takeWhile (\<lambda>d. d \<noteq> c) ''0123456789'')"

definition nat_of_digits :: "string \<Rightarrow> nat" where
  "nat_of_digits s = foldl (\<lambda>a c. 10 * a + digit_val c) 0 s"

text \<open>
  The record a reader yields at position \<open>i\<close> (from 0), if it gets that far.
\<close>

fun nth_row :: "reader \<Rightarrow> nat \<Rightarrow> string list option" where
  "nth_row Stop i = None"
| "nth_row (CsvFail m) i = None"
| "nth_row (Row r rest) i = (case i of 0 \<Rightarrow> Some r | Suc j \<Rightarrow> nth_row rest j)"

text \<open>
  An environment of the handler for concrete runs, over the plain library and the
  storage client \<open>put\<close>. Its base64 decoder rejects every payload; the runs below
  use the plain encoding. The event of these runs carries a
  one-row payload and a session id, and no user id.
\<close>

definition test_env :: "(s3_put \<Rightarrow> string option) \<Rightarrow> env" where
  "test_env put =
     \<lparr>pylib = plain_lib, session_token = ''0123456789ab'',
      utcnow_iso = ''2024-01-01T00:00:00'', put_object = put,
      b64decode_utf8 = (\<lambda>s. Inl ''Incorrect padding''), repr_event = (\<lambda>e. ''{}'')\<rparr>"

definition test_event :: "string \<rightharpoonup> string" where
  "test_event = [''csv_data'' \<mapsto> csv_text [good_line], ''session_id'' \<mapsto> ''s1'']"

section \<open>Constants and text\<close>

lemma length_EXPECTED_HEADER: "length EXPECTED_HEADER = 22"
  by (simp add: EXPECTED_HEADER_def)

lemma str_int_max_rows: "str_int max_rows = ''100000''"
  by (simp add: max_rows_def str_int_def str_nat.simps)

lemma str_int_22: "str_int 22 = ''22''"
  by (simp add: str_int_def str_nat.simps)

lemma upt_4_10: "[4..<10] = [4, 5, 6, 7, 8, 9::nat]"
  by code_simp

lemma upt_2_10: "[2..<10] = [2, 3, 4, 5, 6, 7, 8, 9::nat]"
  by code_simp

section \<open>The numeric checks\<close>

lemma convert_at_int:
  "i < length row \<Longrightarrow> convert_at (int_py lib) row i =
     (case int_error lib (row ! i) of Some m \<Rightarrow> Inl (ValueError m) | None \<Rightarrow> Inr ())"
  by (simp add: convert_at_def get_item_def int_py_def)

lemma convert_at_float:
  "i < length row \<Longrightarrow> convert_at (float_py lib) row i =
     (case float_error lib (row ! i) of Some m \<Rightarrow> Inl (ValueError m) | None \<Rightarrow> Inr ())"
  by (simp add: convert_at_def get_item_def float_py_def)

lemma numeric_checks_unfold:
  assumes "length row = 22"
  shows "numeric_checks lib row =
     run_all (map (\<lambda>s. case s of Some m \<Rightarrow> Inl (ValueError m) | None \<Rightarrow> Inr ())
       [int_error lib (row ! 0), int_error lib (row ! 1),
        float_error lib (row ! 2), float_error lib (row ! 3), float_error lib (row ! 4),
        float_error lib (row ! 5), float_error lib (row ! 6), float_error lib (row ! 7),
        float_error lib (row ! 8), float_error lib (row ! 9)])"
  using assms by (simp add: numeric_checks_def upt_4_10 convert_at_int convert_at_float)

lemma run_all_map_ok:
  "run_all (map (\<lambda>s. case s of Some m \<Rightarrow> Inl (ValueError m) | None \<Rightarrow> Inr ()) es) = Inr ()
     \<longleftrightarrow> (\<forall>e \<in> set es. e = None)"
  by (induction es) (auto split: option.splits)

lemma run_all_map_raises:
  "run_all (map (\<lambda>s. case s of Some m \<Rightarrow> Inl (ValueError m) | None \<Rightarrow> Inr ()) es) = Inl e
     \<Longrightarrow> is_ValueError e"
  by (induction es) (auto split: option.splits)

lemma numeric_checks_ok:
  assumes "length row = 22"
  shows "numeric_checks lib row = Inr () \<longleftrightarrow> well_formed lib row"
proof -
  have "numeric_checks lib row = Inr () \<longleftrightarrow>
        (\<forall>e \<in> set [int_error lib (row ! 0), int_error lib (row ! 1),
        float_error lib (row ! 2), float_error lib (row ! 3), float_error lib (row ! 4),
        float_error lib (row ! 5), float_error lib (row ! 6), float_error lib (row ! 7),
        float_error lib (row ! 8), float_error lib (row ! 9)]. e = None)"
    unfolding numeric_checks_unfold [OF assms] by (rule run_all_map_ok)
  also have "\<dots> \<longleftrightarrow> well_formed lib row"
    using assms by (simp add: well_formed_def upt_2_10)
  finally show ?thesis .
qed

lemma numeric_checks_raises:
  assumes "length row = 22" "numeric_checks lib row = Inl e"
  shows "is_ValueError e"
  using assms(2) unfolding numeric_checks_unfold [OF assms(1)] by (rule run_all_map_raises)

lemma numeric_checks_cases:
  assumes "length row = 22"
  shows "(well_formed lib row \<and> numeric_checks lib row = Inr ())
       \<or> (\<not> well_formed lib row \<and> (\<exists>e. numeric_checks lib row = Inl e \<and> is_ValueError e))"
proof (cases "numeric_checks lib row")
  case (Inl e)
  with assms numeric_checks_raises [OF assms Inl] numeric_checks_ok [OF assms, of lib]
  show ?thesis by auto
next
  case (Inr u)
  with numeric_checks_ok [OF assms, of lib] show ?thesis by auto
qed

section \<open>One pass of the loop\<close>

lemma loop_body_cap:
  assumes "max_rows \<le> cnt"
  shows "loop_body lib row_num cnt row = Inr (Return (invalid ''Too many rows (max 100000)''))"
  using assms by (simp add: loop_body_def Let_def str_int_max_rows)

lemma loop_body_well_formed:
  assumes "cnt < max_rows" "well_formed lib row"
  shows "loop_body lib row_num cnt row = Inr (Next (cnt + 1))"
proof -
  have len: "length row = 22" using assms(2) by (simp add: well_formed_def)
  have "numeric_checks lib row = Inr ()" using numeric_checks_ok [OF len] assms(2) by simp
  with assms(1) len show ?thesis
    by (simp add: loop_body_def Let_def length_EXPECTED_HEADER try_except_def)
qed

lemma loop_body_numeric:
  assumes "cnt < max_rows" "length row = 22" "\<not> well_formed lib row"
  shows "loop_body lib row_num cnt row =
     Inr (Return (invalid (''Row '' @ str_int row_num @ '': Invalid numeric values in required fields'')))"
proof -
  from numeric_checks_cases [OF assms(2), of lib] assms(3)
  obtain e where "numeric_checks lib row = Inl e" "is_ValueError e" by auto
  with assms(1,2) show ?thesis
    by (simp add: loop_body_def Let_def length_EXPECTED_HEADER try_except_def)
qed

lemma loop_body_summary:
  assumes "cnt < max_rows" "summary_row row"
  shows "loop_body lib row_num cnt row = Inr (Next (cnt + 1))"
  using assms
  by (simp add: loop_body_def Let_def length_EXPECTED_HEADER summary_row_def get_item_def)

lemma loop_body_accepted:
  assumes "cnt < max_rows" "accepted lib row"
  shows "loop_body lib row_num cnt row = Inr (Next (cnt + 1))"
  using assms loop_body_well_formed loop_body_summary by (auto simp: accepted_def)

lemma loop_body_columns:
  assumes "cnt < max_rows" "length row \<noteq> 22" "row \<noteq> []"
    "\<not> prefix ''Positive Goals Collected'' (row ! 0)"
  shows "loop_body lib row_num cnt row =
     Inr (Return (invalid (''Row '' @ str_int row_num @ '': Expected 22 columns, got ''
        @ str_int (int (length row)) @ ''. ('' @ repr_row lib row @ '')'')))"
  using assms
  by (simp add: loop_body_def Let_def length_EXPECTED_HEADER get_item_def str_int_22)

lemma loop_body_empty:
  assumes "cnt < max_rows"
  shows "loop_body lib row_num cnt [] = Inl (IndexError ''list index out of range'')"
  using assms by (simp add: loop_body_def Let_def length_EXPECTED_HEADER get_item_def)

lemma loop_body_Next:
  assumes "loop_body lib row_num cnt row = Inr (Next cnt')"
  shows "cnt' = cnt + 1 \<and> cnt' \<le> max_rows"
  using assms
  by (auto simp: loop_body_def Let_def try_except_def split: if_splits sum.splits)

lemma loop_body_Return:
  assumes "loop_body lib row_num cnt row = Inr (Return v)"
  shows "\<exists>m. v = invalid m"
  using assms
  by (auto simp: loop_body_def Let_def try_except_def split: if_splits sum.splits)

lemma loop_body_raises:
  assumes "loop_body lib row_num cnt row = Inl e"
  shows "\<not> is_ValueError e"
  using assms
  by (auto simp: loop_body_def Let_def try_except_def get_item_def split: if_splits sum.splits)

section \<open>The loop\<close>

lemma for_rows_accepted:
  assumes "\<forall>r \<in> set pre. accepted lib r" "cnt + int (length pre) \<le> max_rows"
  shows "for_rows lib row_num cnt (yield_rows pre rest) =
         for_rows lib (row_num + int (length pre)) (cnt + int (length pre)) rest"
  using assms
proof (induction pre arbitrary: row_num cnt)
  case Nil
  then show ?case by simp
next
  case (Cons r pre)
  have "loop_body lib row_num cnt r = Inr (Next (cnt + 1))"
    using Cons.prems by (intro loop_body_accepted) auto
  moreover have "for_rows lib (row_num + 1) (cnt + 1) (yield_rows pre rest) =
      for_rows lib (row_num + 1 + int (length pre)) (cnt + 1 + int (length pre)) rest"
    using Cons.prems by (intro Cons.IH) auto
  ultimately show ?case by (simp add: algebra_simps)
qed

lemma for_rows_Returned:
  assumes "for_rows lib row_num cnt rd = Inr (Returned v)"
  shows "\<exists>m. v = invalid m"
  using assms
proof (induction rd arbitrary: row_num cnt)
  case (Row row rest)
  then show ?case
    by (auto split: sum.splits step.splits dest: loop_body_Return)
qed simp_all

lemma for_rows_Finished:
  assumes "for_rows lib row_num cnt rd = Inr (Finished c)" "cnt \<le> max_rows"
  shows "cnt \<le> c \<and> c \<le> max_rows"
  using assms
proof (induction rd arbitrary: row_num cnt)
  case (Row row rest)
  from Row.prems(1) obtain cnt' where
    b: "loop_body lib row_num cnt row = Inr (Next cnt')" and
    f: "for_rows lib (row_num + 1) cnt' rest = Inr (Finished c)"
    by (auto split: sum.splits step.splits)
  from loop_body_Next [OF b] have "cnt' = cnt + 1" "cnt' \<le> max_rows" by auto
  with Row.IH [OF f] show ?case by auto
qed simp_all

lemma for_rows_raises:
  assumes "for_rows lib row_num cnt rd = Inl e"
  shows "\<not> is_ValueError e"
  using assms
proof (induction rd arbitrary: row_num cnt)
  case (Row row rest)
  then show ?case
    by (auto split: sum.splits step.splits dest: loop_body_raises)
qed auto

section \<open>The validator\<close>

lemma validate_body_header:
  assumes "csv_reader lib csv_data = Row EXPECTED_HEADER rest"
  shows "validate_body lib csv_data =
     (case for_rows lib 2 0 rest of
        Inl e \<Rightarrow> Inl e
      | Inr (Returned v) \<Rightarrow> Inr v
      | Inr (Finished cnt) \<Rightarrow>
          if cnt = 0 then Inr (invalid ''No data rows found'')
          else Inr \<lparr>valid = True, error = None, row_count = Some cnt\<rparr>)"
  using assms by (simp add: validate_body_def)

lemma is_Exception_all: "is_Exception e"
  by (cases e) simp_all

lemma validate_csv_catches:
  "validate_csv lib csv_data =
     (case validate_body lib csv_data of
        Inl e \<Rightarrow> Inr (invalid (''CSV parsing error: '' @ exn_str e))
      | Inr v \<Rightarrow> Inr v)"
  by (simp add: validate_csv_def try_except_def is_Exception_all split: sum.split)

lemma validate_csv_all_accepted:
  assumes "csv_reader lib csv_data = yield_rows (EXPECTED_HEADER # rows) Stop"
    and "\<forall>r \<in> set rows. accepted lib r"
    and "1 \<le> length rows" and "length rows \<le> 100000"
  shows "validate_csv lib csv_data =
     Inr \<lparr>valid = True, error = None, row_count = Some (int (length rows))\<rparr>"
proof -
  have "for_rows lib 2 0 (yield_rows rows Stop) = for_rows lib (2 + int (length rows)) (0 + int (length rows)) Stop"
    using assms(2,4) by (intro for_rows_accepted) (auto simp: max_rows_def)
  then have "for_rows lib 2 0 (yield_rows rows Stop) = Inr (Finished (int (length rows)))"
    by simp
  moreover have "csv_reader lib csv_data = Row EXPECTED_HEADER (yield_rows rows Stop)"
    using assms(1) by simp
  moreover have "rows \<noteq> []"
    using assms(3) by auto
  ultimately show ?thesis
    by (simp add: validate_csv_catches validate_body_header)
qed

section \<open>The plain library on concrete texts\<close>

lemma lines_acc_line:
  assumes "CHR 0x0A \<notin> set l"
  shows "lines_acc acc (l @ CHR 0x0A # rest) = (rev acc @ l) # lines_acc [] rest"
  using assms by (induction l arbitrary: acc) auto

lemma lines_acc_lines:
  assumes "\<forall>l \<in> set ls. CHR 0x0A \<notin> set l"
  shows "lines_acc [] (concat (map (\<lambda>l. l @ [CHR 0x0A]) ls)) = ls"
  using assms by (induction ls) (simp_all add: lines_acc_line)

lemma record_of_header_line: "record_of header_line = EXPECTED_HEADER"
  by code_simp

lemma record_of_good_line: "record_of good_line = good_row"
  by code_simp

lemma header_line_no_newline: "CHR 0x0A \<notin> set header_line"
  by code_simp

lemma good_line_no_newline: "CHR 0x0A \<notin> set good_line"
  by code_simp

lemma plain_reader_csv_text:
  assumes "\<forall>l \<in> set ls. CHR 0x0A \<notin> set l"
  shows "csv_reader plain_lib (csv_text ls) = yield_rows (EXPECTED_HEADER # map record_of ls) Stop"
proof -
  have "\<forall>l \<in> set (header_line # ls). CHR 0x0A \<notin> set l"
    using assms header_line_no_newline by simp
  then have "lines_acc [] (csv_text ls) = header_line # ls"
    unfolding csv_text_def by (rule lines_acc_lines)
  then show ?thesis
    by (simp add: plain_lib_def plain_reader_def record_of_header_line)
qed

lemma well_formed_good_row: "well_formed plain_lib good_row"
  by code_simp

section \<open>Decimal text determines the number\<close>

lemma digit_val_nth:
  assumes "d < 10"
  shows "digit_val (''0123456789'' ! d) = d"
proof -
  from assms have "d \<in> {0, 1, 2, 3, 4, 5, 6, 7, 8, 9}" by auto
  then show ?thesis by (auto simp: digit_val_def)
qed

lemma nat_of_digits_str_nat: "nat_of_digits (str_nat n) = n"
proof (induction n rule: str_nat.induct)
  case (1 n)
  show ?case
  proof (cases "n < 10")
    case True
    then show ?thesis
      by (subst str_nat.simps) (simp add: nat_of_digits_def digit_val_nth)
  next
    case False
    with "1" have "nat_of_digits (str_nat (n div 10)) = n div 10" by simp
    with False show ?thesis
      by (subst str_nat.simps) (simp add: nat_of_digits_def digit_val_nth)
  qed
qed

lemma str_int_inject:
  assumes "0 \<le> a" "0 \<le> b" "str_int a = str_int b"
  shows "a = b"
proof -
  from assms have "str_nat (nat a) = str_nat (nat b)" by (simp add: str_int_def)
  then have "nat_of_digits (str_nat (nat a)) = nat_of_digits (str_nat (nat b))" by simp
  then have "nat a = nat b" by (simp add: nat_of_digits_str_nat)
  with assms(1,2) show ?thesis by simp
qed

section \<open>Which row a verdict names\<close>

lemma invalid_inject: "invalid a = invalid b \<longleftrightarrow> a = b"
  by (simp add: invalid_def)

lemma columns_message_not_numeric:
  "''Row '' @ a @ '': Expected 22 columns, got '' @ b @ ''. ('' @ c @ '')''
     \<noteq> ''Row '' @ d @ '': Invalid numeric values in required fields''"
proof
  assume eq: "''Row '' @ a @ '': Expected 22 columns, got '' @ b @ ''. ('' @ c @ '')''
     = ''Row '' @ d @ '': Invalid numeric values in required fields''"
  have "last (''Row '' @ a @ '': Expected 22 columns, got '' @ b @ ''. ('' @ c @ '')'') = CHR '')''"
    by simp
  moreover have "last (''Row '' @ d @ '': Invalid numeric values in required fields'') = CHR ''s''"
    by simp
  ultimately show False using eq by simp
qed

lemma loop_body_numeric_verdict:
  assumes "loop_body lib row_num cnt row =
      Inr (Return (invalid (''Row '' @ str_int k @ '': Invalid numeric values in required fields'')))"
    and "0 \<le> row_num" and "0 \<le> k"
  shows "k = row_num \<and> length row = 22 \<and> \<not> well_formed lib row"
proof (cases "cnt < max_rows")
  case False
  then have "loop_body lib row_num cnt row = Inr (Return (invalid ''Too many rows (max 100000)''))"
    by (intro loop_body_cap) simp
  with assms(1) show ?thesis by (simp add: invalid_inject)
next
  case cap: True
  show ?thesis
  proof (cases "length row = 22")
    case True
    show ?thesis
    proof (cases "well_formed lib row")
      case True
      from loop_body_well_formed [OF cap True] assms(1) show ?thesis by simp
    next
      case False
      from loop_body_numeric [OF cap True False] assms(1)
      have "str_int row_num = str_int k" by (simp add: invalid_inject)
      with assms(2,3) have "k = row_num" using str_int_inject by metis
      with True False show ?thesis by simp
    qed
  next
    case len: False
    show ?thesis
    proof (cases "row = []")
      case True
      with loop_body_empty [OF cap] assms(1) show ?thesis by simp
    next
      case ne: False
      show ?thesis
      proof (cases "prefix ''Positive Goals Collected'' (row ! 0)")
        case True
        with len ne have "summary_row row" by (simp add: summary_row_def)
        from loop_body_summary [OF cap this] assms(1) show ?thesis by simp
      next
        case False
        from loop_body_columns [OF cap len ne False] assms(1)
        have "''Row '' @ str_int row_num @ '': Expected 22 columns, got ''
                @ str_int (int (length row)) @ ''. ('' @ repr_row lib row @ '')''
            = ''Row '' @ str_int k @ '': Invalid numeric values in required fields''"
          by (simp only: sum.inject step.inject invalid_inject)
        with columns_message_not_numeric show ?thesis by blast
      qed
    qed
  qed
qed


lemma nth_row_yield_rows: "nth_row (yield_rows pre (Row r rest)) (length pre) = Some r"
  by (induction pre) simp_all

lemma for_rows_numeric_verdict:
  assumes "for_rows lib row_num cnt rd =
      Inr (Returned (invalid (''Row '' @ str_int k @ '': Invalid numeric values in required fields'')))"
    and "0 \<le> row_num" and "0 \<le> k"
  shows "row_num \<le> k \<and>
     (\<exists>r. nth_row rd (nat (k - row_num)) = Some r \<and> length r = 22 \<and> \<not> well_formed lib r)"
  using assms
proof (induction rd arbitrary: row_num cnt)
  case (Row row rest)
  show ?case
  proof (cases "loop_body lib row_num cnt row")
    case (Inl e)
    with Row.prems(1) show ?thesis by simp
  next
    case (Inr st)
    show ?thesis
    proof (cases st)
      case (Return v)
      with Inr Row.prems(1) have "loop_body lib row_num cnt row =
        Inr (Return (invalid (''Row '' @ str_int k @ '': Invalid numeric values in required fields'')))"
        by simp
      from loop_body_numeric_verdict [OF this Row.prems(2,3)] show ?thesis by simp
    next
      case (Next cnt')
      with Inr Row.prems(1) have "for_rows lib (row_num + 1) cnt' rest =
        Inr (Returned (invalid (''Row '' @ str_int k @ '': Invalid numeric values in required fields'')))"
        by simp
      from Row.IH [OF this] Row.prems(2,3)
      obtain r where le: "row_num + 1 \<le> k"
        and r: "nth_row rest (nat (k - (row_num + 1))) = Some r" "length r = 22" "\<not> well_formed lib r"
        by auto
      from le have "nat (k - row_num) = Suc (nat (k - (row_num + 1)))" by simp
      with le r show ?thesis by auto
    qed
  qed
qed simp_all

lemma validate_csv_numeric_verdict:
  assumes "csv_reader lib csv_data = yield_rows (EXPECTED_HEADER # pre) (Row r rest)"
    and "validate_csv lib csv_data =
      Inr (invalid (''Row '' @ str_int (int (length pre) + 2) @ '': Invalid numeric values in required fields''))"
  shows "length r = 22 \<and> \<not> well_formed lib r"
proof -
  have rd: "csv_reader lib csv_data = Row EXPECTED_HEADER (yield_rows pre (Row r rest))"
    using assms(1) by simp
  have "for_rows lib 2 0 (yield_rows pre (Row r rest)) =
      Inr (Returned (invalid (''Row '' @ str_int (int (length pre) + 2) @ '': Invalid numeric values in required fields'')))"
  proof (cases "for_rows lib 2 0 (yield_rows pre (Row r rest))")
    case (Inl e)
    with assms(2) rd show ?thesis
      by (simp add: validate_csv_catches validate_body_header invalid_inject)
  next
    case (Inr ex)
    with assms(2) rd show ?thesis
      by (cases ex) (auto simp: validate_csv_catches validate_body_header invalid_def split: if_splits)
  qed
  from for_rows_numeric_verdict [OF this]
  obtain r' where "nth_row (yield_rows pre (Row r rest)) (nat (int (length pre) + 2 - 2)) = Some r'"
    "length r' = 22" "\<not> well_formed lib r'"
    by auto
  then show ?thesis by (simp add: nth_row_yield_rows)
qed

lemma validate_csv_reaches:
  assumes "csv_reader lib csv_data = yield_rows (EXPECTED_HEADER # pre) rest"
    and "\<forall>p \<in> set pre. accepted lib p"
    and "int (length pre) \<le> max_rows"
  shows "validate_csv lib csv_data =
     (case for_rows lib (int (length pre) + 2) (int (length pre)) rest of
        Inl e \<Rightarrow> Inr (invalid (''CSV parsing error: '' @ exn_str e))
      | Inr (Returned v) \<Rightarrow> Inr v
      | Inr (Finished cnt) \<Rightarrow>
          if cnt = 0 then Inr (invalid ''No data rows found'')
          else Inr \<lparr>valid = True, error = None, row_count = Some cnt\<rparr>)"
proof -
  have "for_rows lib 2 0 (yield_rows pre rest) =
        for_rows lib (2 + int (length pre)) (0 + int (length pre)) rest"
    using assms(2,3) by (intro for_rows_accepted) auto
  moreover have "csv_reader lib csv_data = Row EXPECTED_HEADER (yield_rows pre rest)"
    using assms(1) by simp
  ultimately show ?thesis
    by (simp add: validate_csv_catches validate_body_header add.commute
        split: sum.split loop_exit.split)
qed

lemma validate_csv_at_row:
  assumes "csv_reader lib csv_data = yield_rows (EXPECTED_HEADER # pre) (Row r rest)"
    and "\<forall>p \<in> set pre. accepted lib p"
    and "length pre < 100000"
  shows "validate_csv lib csv_data =
     (case loop_body lib (int (length pre) + 2) (int (length pre)) r of
        Inl e \<Rightarrow> Inr (invalid (''CSV parsing error: '' @ exn_str e))
      | Inr (Return v) \<Rightarrow> Inr v
      | Inr (Next cnt') \<Rightarrow>
         (case for_rows lib (int (length pre) + 3) cnt' rest of
            Inl e \<Rightarrow> Inr (invalid (''CSV parsing error: '' @ exn_str e))
          | Inr (Returned v) \<Rightarrow> Inr v
          | Inr (Finished cnt) \<Rightarrow>
              if cnt = 0 then Inr (invalid ''No data rows found'')
              else Inr \<lparr>valid = True, error = None, row_count = Some cnt\<rparr>))"
proof -
  have "int (length pre) \<le> max_rows" using assms(3) by (simp add: max_rows_def)
  from validate_csv_reaches [OF assms(1,2) this] show ?thesis
    by (simp add: add.commute split: sum.split step.split loop_exit.split)
qed

lemma numeric_checks_first_ten:
  assumes "length r = 22" "length r' = 22" "take 10 r' = take 10 r"
  shows "numeric_checks lib r' = numeric_checks lib r"
proof -
  have "r' ! i = r ! i" if "i < 10" for i
  proof -
    from that have "r' ! i = take 10 r' ! i" "r ! i = take 10 r ! i" by simp_all
    with assms(3) show ?thesis by simp
  qed
  then show ?thesis
    by (simp add: numeric_checks_unfold [OF assms(1)] numeric_checks_unfold [OF assms(2)])
qed

lemma validate_body_raises:
  assumes "validate_body lib csv_data = Inl e"
  shows "\<not> is_ValueError e"
proof (cases "csv_reader lib csv_data")
  case Stop
  with assms show ?thesis by (simp add: validate_body_def)
next
  case (CsvFail m)
  with assms show ?thesis by (auto simp: validate_body_def)
next
  case (Row header rest)
  with assms have "for_rows lib 2 0 rest = Inl e"
    by (auto simp: validate_body_def split: if_splits sum.splits loop_exit.splits)
  then show ?thesis by (rule for_rows_raises)
qed

section \<open>Long inputs of the plain library\<close>

lemma yield_rows_snoc: "yield_rows (rs @ [r]) rest = yield_rows rs (Row r rest)"
  by (induction rs) simp_all

lemma accepted_good_row: "accepted plain_lib good_row"
  by (simp add: accepted_def well_formed_good_row)

lemma plain_reader_many:
  "csv_reader plain_lib (csv_text (l # replicate 100000 good_line)) =
     yield_rows (EXPECTED_HEADER # [record_of l]) (yield_rows (replicate 100000 good_row) Stop)"
  if "CHR 0x0A \<notin> set l"
  using plain_reader_csv_text [of "l # replicate 100000 good_line"] that
  by (simp add: good_line_no_newline record_of_good_line)

section \<open>Claims about the validator\<close>

text \<open>
  C1. A text whose first record is the header of the schema and whose other records are
  \<open>N\<close> well-formed data rows, with \<open>1 \<le> N \<le> 100000\<close>, validates with
  \<^verbatim>\<open>row_count\<close> \<open>N\<close>.
\<close>

theorem validate_csv_well_formed:
  assumes "csv_reader lib csv_data = yield_rows (EXPECTED_HEADER # rows) Stop"
    and "\<forall>r \<in> set rows. well_formed lib r"
    and "1 \<le> length rows" and "length rows \<le> 100000"
  shows "validate_csv lib csv_data =
     Inr \<lparr>valid = True, error = None, row_count = Some (int (length rows))\<rparr>"
  using assms by (intro validate_csv_all_accepted) (auto simp: accepted_def)

theorem validate_csv_well_formed_witness:
  "csv_reader plain_lib (csv_text [good_line, good_line]) =
     yield_rows (EXPECTED_HEADER # [good_row, good_row]) Stop
   \<and> well_formed plain_lib good_row
   \<and> validate_csv plain_lib (csv_text [good_line, good_line]) =
     Inr \<lparr>valid = True, error = None, row_count = Some 2\<rparr>"
proof -
  have rd: "csv_reader plain_lib (csv_text [good_line, good_line]) =
     yield_rows (EXPECTED_HEADER # [good_row, good_row]) Stop"
    using plain_reader_csv_text [of "[good_line, good_line]"]
    by (simp add: good_line_no_newline record_of_good_line)
  have wf: "\<forall>r \<in> set [good_row, good_row]. well_formed plain_lib r"
    by (simp add: well_formed_good_row)
  show ?thesis
    using validate_csv_well_formed [OF rd wf] rd well_formed_good_row by simp
qed

text \<open>
  C2 (amended). The claim speaks of every input with a valid header and more than 100000
  data rows; the loop returns at the first row that fails a check, so the cap is only
  reached when the first 100000 data rows pass theirs. For every input with a valid
  header whose first 100000 data rows are each well-formed or a summary row, and which has
  one more data row, the verdict is invalid with the message
  \<^verbatim>\<open>Too many rows (max 100000)\<close> and no row count. A pass of the loop body returns this
  verdict exactly when the incremented counter exceeds 100000, so the first time at
  100001 and not at 100000.
\<close>

theorem validate_csv_too_many_rows:
  assumes "csv_reader lib csv_data = yield_rows (EXPECTED_HEADER # pre) (Row r rest)"
    and "\<forall>p \<in> set pre. accepted lib p"
    and "length pre = 100000"
  shows "validate_csv lib csv_data =
           Inr \<lparr>valid = False, error = Some ''Too many rows (max 100000)'', row_count = None\<rparr>
       \<and> (loop_body lib row_num cnt row = Inr (Return (invalid ''Too many rows (max 100000)''))
            \<longleftrightarrow> 100000 < cnt + 1)"
proof
  have "int (length pre) \<le> max_rows" using assms(3) by (simp add: max_rows_def)
  from validate_csv_reaches [OF assms(1,2) this]
  have "validate_csv lib csv_data =
     (case for_rows lib (int (length pre) + 2) (int (length pre)) (Row r rest) of
        Inl e \<Rightarrow> Inr (invalid (''CSV parsing error: '' @ exn_str e))
      | Inr (Returned v) \<Rightarrow> Inr v
      | Inr (Finished cnt) \<Rightarrow>
          if cnt = 0 then Inr (invalid ''No data rows found'')
          else Inr \<lparr>valid = True, error = None, row_count = Some cnt\<rparr>)" .
  moreover have "loop_body lib (int (length pre) + 2) (int (length pre)) r =
      Inr (Return (invalid ''Too many rows (max 100000)''))"
    using assms(3) by (intro loop_body_cap) (simp add: max_rows_def)
  ultimately show "validate_csv lib csv_data =
      Inr \<lparr>valid = False, error = Some ''Too many rows (max 100000)'', row_count = None\<rparr>"
    by (simp add: invalid_def)
next
  show "loop_body lib row_num cnt row = Inr (Return (invalid ''Too many rows (max 100000)''))
            \<longleftrightarrow> 100000 < cnt + 1"
  proof (cases "cnt < max_rows")
    case False
    then have "loop_body lib row_num cnt row = Inr (Return (invalid ''Too many rows (max 100000)''))"
      by (intro loop_body_cap) simp
    with False show ?thesis by (simp add: max_rows_def)
  next
    case True
    then have "loop_body lib row_num cnt row \<noteq> Inr (Return (invalid ''Too many rows (max 100000)''))"
      by (auto simp: loop_body_def Let_def try_except_def invalid_inject
          split: sum.splits if_splits)
    with True show ?thesis by (simp add: max_rows_def)
  qed
qed

theorem validate_csv_too_many_rows_witness:
  "csv_reader plain_lib (csv_text (good_line # replicate 100000 good_line)) =
     yield_rows (EXPECTED_HEADER # replicate 100000 good_row) (Row good_row Stop)
   \<and> accepted plain_lib good_row
   \<and> length (replicate 100000 good_row) = 100000
   \<and> validate_csv plain_lib (csv_text (good_line # replicate 100000 good_line)) =
       Inr \<lparr>valid = False, error = Some ''Too many rows (max 100000)'', row_count = None\<rparr>"
proof -
  have "yield_rows (EXPECTED_HEADER # [good_row]) (yield_rows (replicate 100000 good_row) Stop)
      = yield_rows (EXPECTED_HEADER # replicate 100000 good_row) (Row good_row Stop)"
    using yield_rows_snoc [of "replicate 100000 good_row" good_row Stop]
    by (simp add: replicate_append_same)
  with plain_reader_many [OF good_line_no_newline]
  have rd: "csv_reader plain_lib (csv_text (good_line # replicate 100000 good_line)) =
     yield_rows (EXPECTED_HEADER # replicate 100000 good_row) (Row good_row Stop)"
    by (simp add: record_of_good_line)
  have acc: "\<forall>p \<in> set (replicate 100000 good_row). accepted plain_lib p"
    by (simp add: accepted_good_row)
  have len: "length (replicate 100000 good_row) = 100000"
    by simp
  show ?thesis
    using validate_csv_too_many_rows [OF rd acc len] rd accepted_good_row by simp
qed

text \<open>
  The claim as stated fails on a header, a one-column row and 100000 well-formed rows:
  the input has 100001 data rows, and the verdict names the column count of row 2.
\<close>

theorem validate_csv_too_many_rows_counterexample:
  "csv_reader plain_lib (csv_text (''x'' # replicate 100000 good_line)) =
     yield_rows (EXPECTED_HEADER # [[''x'']]) (yield_rows (replicate 100000 good_row) Stop)
   \<and> length ([''x''] # replicate 100000 good_row) = 100001
   \<and> validate_csv plain_lib (csv_text (''x'' # replicate 100000 good_line)) =
       Inr (invalid ''Row 2: Expected 22 columns, got 1. (['x'])'')
   \<and> validate_csv plain_lib (csv_text (''x'' # replicate 100000 good_line)) \<noteq>
       Inr (invalid ''Too many rows (max 100000)'')"
proof -
  have nl: "CHR 0x0A \<notin> set ''x''" by simp
  have rec: "record_of ''x'' = [''x'']" by code_simp
  from plain_reader_many [OF nl] rec
  have rd: "csv_reader plain_lib (csv_text (''x'' # replicate 100000 good_line)) =
     yield_rows (EXPECTED_HEADER # []) (Row [''x''] (yield_rows (replicate 100000 good_row) Stop))"
    by simp
  have body: "loop_body plain_lib (int (length ([]::string list list)) + 2)
      (int (length ([]::string list list))) [''x''] =
      Inr (Return (invalid ''Row 2: Expected 22 columns, got 1. (['x'])''))"
    by code_simp
  have "validate_csv plain_lib (csv_text (''x'' # replicate 100000 good_line)) =
       Inr (invalid ''Row 2: Expected 22 columns, got 1. (['x'])'')"
    using validate_csv_at_row [OF rd] body by simp
  then show ?thesis
    using rd by (simp add: invalid_inject)
qed

text \<open>
  C3 (amended). The verdict can name one row only, the first that fails a check. For
  every data row that has a first field not starting with the marker and a column count
  other than 22, that lies among the first 100000 data rows and is preceded only by rows
  that pass their checks, the verdict is invalid and its message gives the row number
  (the header being row 1), the expected and the actual column count and the row as
  Python prints it. The record without fields is left out here.
\<close>

theorem validate_csv_wrong_column_count:
  assumes "csv_reader lib csv_data = yield_rows (EXPECTED_HEADER # pre) (Row r rest)"
    and "\<forall>p \<in> set pre. accepted lib p"
    and "length pre < 100000"
    and "length r \<noteq> 22" and "r \<noteq> []"
    and "\<not> prefix ''Positive Goals Collected'' (r ! 0)"
  shows "validate_csv lib csv_data =
     Inr (invalid (''Row '' @ str_int (int (length pre) + 2) @ '': Expected 22 columns, got ''
                   @ str_int (int (length r)) @ ''. ('' @ repr_row lib r @ '')''))"
proof -
  have "int (length pre) < max_rows" using assms(3) by (simp add: max_rows_def)
  from loop_body_columns [OF this assms(4,5,6)] validate_csv_at_row [OF assms(1,2,3)]
  show ?thesis by simp
qed

theorem validate_csv_wrong_column_count_witness:
  "csv_reader plain_lib (csv_text [good_line, ''x,y'']) =
     yield_rows (EXPECTED_HEADER # [good_row]) (Row [''x'', ''y''] Stop)
   \<and> accepted plain_lib good_row
   \<and> \<not> prefix ''Positive Goals Collected'' ([''x'', ''y''] ! 0)
   \<and> validate_csv plain_lib (csv_text [good_line, ''x,y'']) =
       Inr (invalid ''Row 3: Expected 22 columns, got 2. (['x', 'y'])'')"
proof -
  have rd: "csv_reader plain_lib (csv_text [good_line, ''x,y'']) =
     yield_rows (EXPECTED_HEADER # [good_row]) (Row [''x'', ''y''] Stop)"
    by code_simp
  have acc: "\<forall>p \<in> set [good_row]. accepted plain_lib p"
    by (simp add: accepted_good_row)
  have np: "\<not> prefix ''Positive Goals Collected'' ([''x'', ''y''] ! 0)"
    by code_simp
  have msg: "''Row '' @ str_int (int (length [good_row]) + 2) @ '': Expected 22 columns, got ''
                   @ str_int (int (length [''x'', ''y''])) @ ''. ('' @ repr_row plain_lib [''x'', ''y''] @ '')''
      = ''Row 3: Expected 22 columns, got 2. (['x', 'y'])''"
    by code_simp
  have "validate_csv plain_lib (csv_text [good_line, ''x,y'']) =
     Inr (invalid (''Row '' @ str_int (int (length [good_row]) + 2) @ '': Expected 22 columns, got ''
                   @ str_int (int (length [''x'', ''y''])) @ ''. ('' @ repr_row plain_lib [''x'', ''y''] @ '')''))"
    by (rule validate_csv_wrong_column_count [OF rd acc _ _ _ np]) simp_all
  then have v: "validate_csv plain_lib (csv_text [good_line, ''x,y'']) =
       Inr (invalid ''Row 3: Expected 22 columns, got 2. (['x', 'y'])'')"
    by (simp only: msg)
  show ?thesis
    by (rule conjI [OF rd conjI [OF accepted_good_row conjI [OF np v]]])
qed

text \<open>
  The claim as stated fails on two rows with wrong column counts: row 3 has one column
  and no marker, and the verdict is the message of row 2.
\<close>

theorem validate_csv_wrong_column_count_counterexample:
  "csv_reader plain_lib (csv_text [''x,y'', ''z'']) =
     yield_rows (EXPECTED_HEADER # [[''x'', ''y'']]) (Row [''z''] Stop)
   \<and> length [''z''] \<noteq> 22
   \<and> \<not> prefix ''Positive Goals Collected'' ([''z''] ! 0)
   \<and> validate_csv plain_lib (csv_text [''x,y'', ''z'']) =
       Inr (invalid ''Row 2: Expected 22 columns, got 2. (['x', 'y'])'')
   \<and> validate_csv plain_lib (csv_text [''x,y'', ''z'']) \<noteq>
       Inr (invalid ''Row 3: Expected 22 columns, got 1. (['z'])'')"
  by code_simp

text \<open>
  C4 (amended). The marker is only looked at when the column count is not 22. A row
  with another column count and a first field starting with the marker passes the loop
  body (entered below the cap) to the next row with the counter incremented, whatever the
  conversions of the library say of its fields, and the verdict of the validator never
  is the numeric failure of that row. A row of 22 columns is type-checked whatever its
  first field starts with: when the integer conversion of its first field fails, the pass
  returns the numeric failure.
\<close>

theorem summary_row_skips_numeric_checks:
  assumes "csv_reader lib csv_data = yield_rows (EXPECTED_HEADER # pre) (Row r rest)"
    and "length r \<noteq> 22" and "r \<noteq> []"
    and "prefix ''Positive Goals Collected'' (r ! 0)"
  shows "(cnt < max_rows \<longrightarrow> loop_body lib row_num cnt r = Inr (Next (cnt + 1)))
       \<and> validate_csv lib csv_data \<noteq>
           Inr (invalid (''Row '' @ str_int (int (length pre) + 2)
                         @ '': Invalid numeric values in required fields''))
       \<and> (cnt < max_rows \<and> length r' = 22 \<and> int_error lib (r' ! 0) \<noteq> None \<longrightarrow>
            loop_body lib row_num cnt r' =
              Inr (Return (invalid (''Row '' @ str_int row_num
                                    @ '': Invalid numeric values in required fields''))))"
proof (intro conjI impI)
  have "summary_row r" using assms(2,3,4) by (simp add: summary_row_def)
  then show "loop_body lib row_num cnt r = Inr (Next (cnt + 1))" if "cnt < max_rows"
    using that by (simp add: loop_body_summary)
next
  show "validate_csv lib csv_data \<noteq>
           Inr (invalid (''Row '' @ str_int (int (length pre) + 2)
                         @ '': Invalid numeric values in required fields''))"
    using validate_csv_numeric_verdict [OF assms(1)] assms(2) by blast
next
  assume a: "cnt < max_rows \<and> length r' = 22 \<and> int_error lib (r' ! 0) \<noteq> None"
  then have "\<not> well_formed lib r'" by (simp add: well_formed_def)
  with a show "loop_body lib row_num cnt r' =
              Inr (Return (invalid (''Row '' @ str_int row_num
                                    @ '': Invalid numeric values in required fields'')))"
    by (simp add: loop_body_numeric)
qed

theorem summary_row_skips_numeric_checks_witness:
  "csv_reader plain_lib (csv_text [good_line, ''Positive Goals Collected: 3,x'']) =
     yield_rows (EXPECTED_HEADER # [good_row]) (Row [''Positive Goals Collected: 3'', ''x''] Stop)
   \<and> prefix ''Positive Goals Collected'' ([''Positive Goals Collected: 3'', ''x''] ! 0)
   \<and> loop_body plain_lib 3 1 [''Positive Goals Collected: 3'', ''x''] = Inr (Next 2)
   \<and> validate_csv plain_lib (csv_text [good_line, ''Positive Goals Collected: 3,x'']) \<noteq>
       Inr (invalid ''Row 3: Invalid numeric values in required fields'')"
proof -
  have rd: "csv_reader plain_lib (csv_text [good_line, ''Positive Goals Collected: 3,x'']) =
     yield_rows (EXPECTED_HEADER # [good_row]) (Row [''Positive Goals Collected: 3'', ''x''] Stop)"
    by code_simp
  have len: "length [''Positive Goals Collected: 3'', ''x''] \<noteq> 22"
    by simp
  have ne: "[''Positive Goals Collected: 3'', ''x''] \<noteq> []"
    by simp
  have pre: "prefix ''Positive Goals Collected'' ([''Positive Goals Collected: 3'', ''x''] ! 0)"
    by code_simp
  have msg: "''Row '' @ str_int (int (length [good_row]) + 2)
                          @ '': Invalid numeric values in required fields''
      = ''Row 3: Invalid numeric values in required fields''"
    by code_simp
  have cap: "(1::int) < max_rows"
    by (simp add: max_rows_def)
  note t = summary_row_skips_numeric_checks [OF rd len ne pre, of 1 3]
  from t cap have a: "loop_body plain_lib 3 1 [''Positive Goals Collected: 3'', ''x''] = Inr (Next 2)"
    by simp
  from t have "validate_csv plain_lib (csv_text [good_line, ''Positive Goals Collected: 3,x'']) \<noteq>
       Inr (invalid (''Row '' @ str_int (int (length [good_row]) + 2)
                          @ '': Invalid numeric values in required fields''))"
    by blast
  then have b: "validate_csv plain_lib (csv_text [good_line, ''Positive Goals Collected: 3,x'']) \<noteq>
       Inr (invalid ''Row 3: Invalid numeric values in required fields'')"
    unfolding msg .
  show ?thesis
    by (rule conjI [OF rd conjI [OF pre conjI [OF a b]]])
qed

text \<open>
  The claim as stated fails on a row of 22 columns whose first field is the marker: the
  integer conversion of the first field raises, and the verdict is the numeric failure
  of row 2.
\<close>

theorem summary_row_skips_numeric_checks_counterexample:
  "csv_reader plain_lib (csv_text [marker_line]) = yield_rows [EXPECTED_HEADER, marker_row] Stop
   \<and> prefix ''Positive Goals Collected'' (marker_row ! 0)
   \<and> validate_csv plain_lib (csv_text [marker_line]) =
       Inr (invalid ''Row 2: Invalid numeric values in required fields'')"
  by code_simp

text \<open>
  C5. Summary rows (another number of columns than 22, first field starting with the
  marker) are accepted whatever their other fields hold and whatever the conversions of
  the library would say of them, and they are counted: an input of \<open>N\<close> rows, each
  well-formed or a summary row, with \<open>1 \<le> N \<le> 100000\<close>, validates with
  \<^verbatim>\<open>row_count\<close> \<open>N\<close>.
\<close>

theorem validate_csv_counts_summary_rows:
  assumes "csv_reader lib csv_data = yield_rows (EXPECTED_HEADER # rows) Stop"
    and "\<forall>r \<in> set rows. well_formed lib r \<or> summary_row r"
    and "1 \<le> length rows" and "length rows \<le> 100000"
  shows "validate_csv lib csv_data =
     Inr \<lparr>valid = True, error = None, row_count = Some (int (length rows))\<rparr>"
  using assms by (intro validate_csv_all_accepted) (auto simp: accepted_def)

theorem validate_csv_counts_summary_rows_witness:
  "csv_reader plain_lib (csv_text [good_line, ''Positive Goals Collected: 3'', ''Positive Goals Collected,x'']) =
     yield_rows (EXPECTED_HEADER #
       [good_row, [''Positive Goals Collected: 3''], [''Positive Goals Collected'', ''x'']]) Stop
   \<and> well_formed plain_lib good_row
   \<and> summary_row [''Positive Goals Collected: 3'']
   \<and> summary_row [''Positive Goals Collected'', ''x'']
   \<and> validate_csv plain_lib
        (csv_text [good_line, ''Positive Goals Collected: 3'', ''Positive Goals Collected,x'']) =
     Inr \<lparr>valid = True, error = None, row_count = Some 3\<rparr>"
proof -
  have rd: "csv_reader plain_lib
      (csv_text [good_line, ''Positive Goals Collected: 3'', ''Positive Goals Collected,x'']) =
     yield_rows (EXPECTED_HEADER #
       [good_row, [''Positive Goals Collected: 3''], [''Positive Goals Collected'', ''x'']]) Stop"
    by code_simp
  have s1: "summary_row [''Positive Goals Collected: 3'']"
    by code_simp
  have s2: "summary_row [''Positive Goals Collected'', ''x'']"
    by code_simp
  have ok: "\<forall>r \<in> set [good_row, [''Positive Goals Collected: 3''], [''Positive Goals Collected'', ''x'']].
      well_formed plain_lib r \<or> summary_row r"
    using well_formed_good_row s1 s2 by simp
  show ?thesis
    using validate_csv_counts_summary_rows [OF rd ok] rd well_formed_good_row s1 s2 by simp
qed

text \<open>
  C6 (amended). The validator returns a verdict on every text and never raises. Every
  exception that leaves the statements of its \<^verbatim>\<open>try\<close> block is reported as the invalid
  verdict \<^verbatim>\<open>CSV parsing error: \<close> followed by the exception's message; no
  \<^verbatim>\<open>ValueError\<close> is among these. The exceptions of the numeric conversions of a row are
  all \<^verbatim>\<open>ValueError\<close>s and are handled at the row: the pass over the row returns the
  verdict \<^verbatim>\<open>Row N: Invalid numeric values in required fields\<close>.
\<close>

theorem validate_csv_total:
  "(\<exists>v. validate_csv lib csv_data = Inr v)
   \<and> (\<forall>e. validate_body lib csv_data = Inl e \<longrightarrow>
          \<not> is_ValueError e
          \<and> validate_csv lib csv_data = Inr (invalid (''CSV parsing error: '' @ exn_str e)))
   \<and> (\<forall>e. cnt < max_rows \<and> length row = 22 \<and> numeric_checks lib row = Inl e \<longrightarrow>
          is_ValueError e
          \<and> loop_body lib row_num cnt row =
              Inr (Return (invalid (''Row '' @ str_int row_num
                                    @ '': Invalid numeric values in required fields''))))"
proof (intro conjI allI impI)
  show "\<exists>v. validate_csv lib csv_data = Inr v"
    by (cases "validate_body lib csv_data") (simp_all add: validate_csv_catches)
next
  fix e assume "validate_body lib csv_data = Inl e"
  then show "\<not> is_ValueError e" by (rule validate_body_raises)
next
  fix e assume "validate_body lib csv_data = Inl e"
  then show "validate_csv lib csv_data = Inr (invalid (''CSV parsing error: '' @ exn_str e))"
    by (simp add: validate_csv_catches)
next
  fix e assume a: "cnt < max_rows \<and> length row = 22 \<and> numeric_checks lib row = Inl e"
  then show "is_ValueError e" using numeric_checks_raises by blast
next
  fix e assume a: "cnt < max_rows \<and> length row = 22 \<and> numeric_checks lib row = Inl e"
  then have "\<not> well_formed lib row" using numeric_checks_ok [of row lib] by auto
  with a show "loop_body lib row_num cnt row =
              Inr (Return (invalid (''Row '' @ str_int row_num
                                    @ '': Invalid numeric values in required fields'')))"
    by (simp add: loop_body_numeric)
qed

theorem validate_csv_total_witness:
  "validate_body plain_lib (csv_text [good_line, []]) = Inl (IndexError ''list index out of range'')
   \<and> validate_csv plain_lib (csv_text [good_line, []]) =
       Inr (invalid ''CSV parsing error: list index out of range'')"
proof -
  have b: "validate_body plain_lib (csv_text [good_line, []]) =
      Inl (IndexError ''list index out of range'')"
    by code_simp
  from validate_csv_total [of plain_lib "csv_text [good_line, []]"] b
  have "validate_csv plain_lib (csv_text [good_line, []]) =
      Inr (invalid (''CSV parsing error: '' @ exn_str (IndexError ''list index out of range'')))"
    by blast
  then have v: "validate_csv plain_lib (csv_text [good_line, []]) =
       Inr (invalid ''CSV parsing error: list index out of range'')"
    by simp
  show ?thesis by (rule conjI [OF b v])
qed

text \<open>
  The claim as stated (any exception arising anywhere inside the validation is reported
  as a CSV parsing error) fails on a row whose first column is \<^verbatim>\<open>abc\<close>: the
  conversion raises \<^verbatim>\<open>ValueError\<close> inside the validation, and the verdict is the
  numeric failure of row 2, not a CSV parsing error with that exception's message.
\<close>

theorem validate_csv_total_counterexample:
  "csv_reader plain_lib (csv_text [bad_line]) = yield_rows [EXPECTED_HEADER, bad_row] Stop
   \<and> numeric_checks plain_lib bad_row =
       Inl (ValueError (''invalid literal for int() with base 10: '' @ plain_repr ''abc''))
   \<and> validate_csv plain_lib (csv_text [bad_line]) =
       Inr (invalid ''Row 2: Invalid numeric values in required fields'')
   \<and> validate_csv plain_lib (csv_text [bad_line]) \<noteq>
       Inr (invalid (''CSV parsing error: ''
         @ exn_str (ValueError (''invalid literal for int() with base 10: '' @ plain_repr ''abc''))))"
  by code_simp

text \<open>
  C7. Every verdict of the validator has one of two shapes: valid, with no error message
  and a row count between 1 and 100000, or invalid, with an error message and no row
  count.
\<close>

theorem validate_csv_verdict_shape:
  assumes "validate_csv lib csv_data = Inr v"
  shows "(valid v \<and> error v = None \<and> (\<exists>n. row_count v = Some n \<and> 1 \<le> n \<and> n \<le> 100000))
       \<or> (\<not> valid v \<and> (\<exists>m. error v = Some m) \<and> row_count v = None)"
proof (cases "validate_body lib csv_data")
  case (Inl e)
  with assms show ?thesis by (auto simp: validate_csv_catches invalid_def)
next
  case (Inr w)
  with assms have vw: "w = v" by (simp add: validate_csv_catches)
  show ?thesis
  proof (cases "csv_reader lib csv_data")
    case Stop
    with Inr vw show ?thesis by (auto simp: validate_body_def invalid_def)
  next
    case (CsvFail m)
    with Inr show ?thesis by (simp add: validate_body_def)
  next
    case (Row header rest)
    show ?thesis
    proof (cases "header = EXPECTED_HEADER")
      case False
      with Row Inr vw show ?thesis by (auto simp: validate_body_def invalid_def)
    next
      case True
      show ?thesis
      proof (cases "for_rows lib 2 0 rest")
        case (Inl e)
        with Row True Inr show ?thesis by (simp add: validate_body_def)
      next
        case loop: (Inr ex)
        show ?thesis
        proof (cases ex)
          case (Returned u)
          with loop for_rows_Returned obtain m where "u = invalid m" by blast
          with Returned loop Row True Inr vw show ?thesis
            by (auto simp: validate_body_def invalid_def)
        next
          case (Finished c)
          with loop have "for_rows lib 2 0 rest = Inr (Finished c)" by simp
          from for_rows_Finished [OF this] have "0 \<le> c" "c \<le> 100000"
            by (simp_all add: max_rows_def)
          with Finished loop Row True Inr vw show ?thesis
            by (cases "c = 0") (auto simp: validate_body_def invalid_def)
        qed
      qed
    qed
  qed
qed

theorem validate_csv_verdict_shape_witness:
  "validate_csv plain_lib (csv_text [good_line]) =
     Inr \<lparr>valid = True, error = None, row_count = Some 1\<rparr>
   \<and> validate_csv plain_lib (csv_text [''x,y'']) =
     Inr \<lparr>valid = False, error = Some ''Row 2: Expected 22 columns, got 2. (['x', 'y'])'',
          row_count = None\<rparr>"
proof -
  have a: "validate_csv plain_lib (csv_text [good_line]) =
     Inr \<lparr>valid = True, error = None, row_count = Some 1\<rparr>"
    by code_simp
  have b: "validate_csv plain_lib (csv_text [''x,y'']) =
     Inr \<lparr>valid = False, error = Some ''Row 2: Expected 22 columns, got 2. (['x', 'y'])'',
          row_count = None\<rparr>"
    by code_simp
  show ?thesis
    using validate_csv_verdict_shape [OF a] validate_csv_verdict_shape [OF b] a b by simp
qed

text \<open>
  C8 (amended). For every data row of exactly 22 columns that lies among the first 100000
  data rows and is preceded only by rows that pass their checks, the verdict is the
  numeric failure naming that row if and only if column 0 or 1 fails the integer
  conversion or one of the columns 2 to 9 fails the float conversion. The columns from
  index 10 on are never converted: the pass of the loop body over a row of 22 columns
  depends on its first ten columns only.
\<close>

theorem validate_csv_numeric_failure:
  assumes "csv_reader lib csv_data = yield_rows (EXPECTED_HEADER # pre) (Row r rest)"
    and "\<forall>p \<in> set pre. accepted lib p"
    and "length pre < 100000"
    and "length r = 22"
  shows "(validate_csv lib csv_data =
            Inr (invalid (''Row '' @ str_int (int (length pre) + 2)
                          @ '': Invalid numeric values in required fields''))
          \<longleftrightarrow> int_error lib (r ! 0) \<noteq> None \<or> int_error lib (r ! 1) \<noteq> None
               \<or> (\<exists>i \<in> {2..9}. float_error lib (r ! i) \<noteq> None))
       \<and> (length r' = 22 \<and> take 10 r' = take 10 r
            \<longrightarrow> loop_body lib row_num cnt r' = loop_body lib row_num cnt r)"
proof
  have wf: "well_formed lib r \<longleftrightarrow>
      \<not> (int_error lib (r ! 0) \<noteq> None \<or> int_error lib (r ! 1) \<noteq> None
               \<or> (\<exists>i \<in> {2..9}. float_error lib (r ! i) \<noteq> None))"
  proof -
    have "set [2..<10] = {2..9::nat}" by auto
    with assms(4) show ?thesis by (simp add: well_formed_def)
  qed
  have cap: "int (length pre) < max_rows" using assms(3) by (simp add: max_rows_def)
  show "validate_csv lib csv_data =
            Inr (invalid (''Row '' @ str_int (int (length pre) + 2)
                          @ '': Invalid numeric values in required fields''))
          \<longleftrightarrow> int_error lib (r ! 0) \<noteq> None \<or> int_error lib (r ! 1) \<noteq> None
               \<or> (\<exists>i \<in> {2..9}. float_error lib (r ! i) \<noteq> None)"
  proof (cases "well_formed lib r")
    case True
    with validate_csv_numeric_verdict [OF assms(1)] wf show ?thesis by blast
  next
    case False
    from loop_body_numeric [OF cap assms(4) False] validate_csv_at_row [OF assms(1,2,3)]
    have "validate_csv lib csv_data =
            Inr (invalid (''Row '' @ str_int (int (length pre) + 2)
                          @ '': Invalid numeric values in required fields''))"
      by simp
    with False wf show ?thesis by blast
  qed
next
  show "length r' = 22 \<and> take 10 r' = take 10 r
            \<longrightarrow> loop_body lib row_num cnt r' = loop_body lib row_num cnt r"
    using assms(4) numeric_checks_first_ten [of r r' lib]
    by (auto simp: loop_body_def Let_def length_EXPECTED_HEADER)
qed

theorem validate_csv_numeric_failure_witness:
  "csv_reader plain_lib (csv_text [good_line, bad_line]) =
     yield_rows (EXPECTED_HEADER # [good_row]) (Row bad_row Stop)
   \<and> accepted plain_lib good_row
   \<and> length bad_row = 22
   \<and> int_error plain_lib (bad_row ! 0) \<noteq> None
   \<and> validate_csv plain_lib (csv_text [good_line, bad_line]) =
       Inr (invalid ''Row 3: Invalid numeric values in required fields'')"
proof -
  have rd: "csv_reader plain_lib (csv_text [good_line, bad_line]) =
     yield_rows (EXPECTED_HEADER # [good_row]) (Row bad_row Stop)"
    by code_simp
  have acc: "\<forall>p \<in> set [good_row]. accepted plain_lib p"
    by (simp add: accepted_good_row)
  have len: "length bad_row = 22"
    by code_simp
  have bad: "int_error plain_lib (bad_row ! 0) \<noteq> None"
    by code_simp
  have msg: "''Row '' @ str_int (int (length [good_row]) + 2)
                          @ '': Invalid numeric values in required fields''
      = ''Row 3: Invalid numeric values in required fields''"
    by code_simp
  have "length [good_row] < 100000"
    by simp
  from validate_csv_numeric_failure [OF rd acc this len] bad
  have "validate_csv plain_lib (csv_text [good_line, bad_line]) =
            Inr (invalid (''Row '' @ str_int (int (length [good_row]) + 2)
                          @ '': Invalid numeric values in required fields''))"
    by blast
  then have v: "validate_csv plain_lib (csv_text [good_line, bad_line]) =
       Inr (invalid ''Row 3: Invalid numeric values in required fields'')"
    by (simp only: msg)
  show ?thesis
    by (rule conjI [OF rd conjI [OF accepted_good_row conjI [OF len conjI [OF bad v]]]])
qed

text \<open>
  The claim as stated fails on two rows of 22 columns that both start with \<^verbatim>\<open>abc\<close>:
  column 0 of row 3 fails the integer conversion, and the verdict names row 2.
\<close>

theorem validate_csv_numeric_failure_counterexample:
  "csv_reader plain_lib (csv_text [bad_line, bad_line]) =
     yield_rows (EXPECTED_HEADER # [bad_row]) (Row bad_row Stop)
   \<and> length bad_row = 22
   \<and> int_error plain_lib (bad_row ! 0) \<noteq> None
   \<and> validate_csv plain_lib (csv_text [bad_line, bad_line]) =
       Inr (invalid ''Row 2: Invalid numeric values in required fields'')
   \<and> validate_csv plain_lib (csv_text [bad_line, bad_line]) \<noteq>
       Inr (invalid ''Row 3: Invalid numeric values in required fields'')"
  by code_simp

text \<open>
  C10 (amended). For every input with a valid header whose data section has a record
  without fields among its first 100000 data rows, preceded only by rows that pass their
  checks, the verdict is invalid with the message
  \<^verbatim>\<open>CSV parsing error: list index out of range\<close>, and not the column-count message of
  that row.
\<close>

theorem validate_csv_empty_record:
  assumes "csv_reader lib csv_data = yield_rows (EXPECTED_HEADER # pre) (Row [] rest)"
    and "\<forall>p \<in> set pre. accepted lib p"
    and "length pre < 100000"
  shows "validate_csv lib csv_data = Inr (invalid ''CSV parsing error: list index out of range'')
       \<and> validate_csv lib csv_data \<noteq>
           Inr (invalid (''Row '' @ str_int (int (length pre) + 2) @ '': Expected 22 columns, got ''
                   @ str_int 0 @ ''. ('' @ repr_row lib [] @ '')''))"
proof -
  have "int (length pre) < max_rows" using assms(3) by (simp add: max_rows_def)
  from loop_body_empty [OF this] validate_csv_at_row [OF assms(1,2,3)]
  have "validate_csv lib csv_data = Inr (invalid ''CSV parsing error: list index out of range'')"
    by simp
  then show ?thesis by (simp add: invalid_inject)
qed

theorem validate_csv_empty_record_witness:
  "csv_reader plain_lib (csv_text [good_line, [], good_line]) =
     yield_rows (EXPECTED_HEADER # [good_row]) (Row [] (Row good_row Stop))
   \<and> accepted plain_lib good_row
   \<and> validate_csv plain_lib (csv_text [good_line, [], good_line]) =
       Inr (invalid ''CSV parsing error: list index out of range'')"
proof -
  have rd: "csv_reader plain_lib (csv_text [good_line, [], good_line]) =
     yield_rows (EXPECTED_HEADER # [good_row]) (Row [] (Row good_row Stop))"
    by code_simp
  have acc: "\<forall>p \<in> set [good_row]. accepted plain_lib p"
    by (simp add: accepted_good_row)
  show ?thesis
    using validate_csv_empty_record [OF rd acc] rd accepted_good_row by simp
qed

text \<open>
  The claim as stated fails when a row before the empty record fails a check: on a
  one-column row followed by an empty line, the verdict is the column-count message of
  row 2.
\<close>

theorem validate_csv_empty_record_counterexample:
  "csv_reader plain_lib (csv_text [''x'', []]) =
     yield_rows (EXPECTED_HEADER # [[''x'']]) (Row [] Stop)
   \<and> validate_csv plain_lib (csv_text [''x'', []]) =
       Inr (invalid ''Row 2: Expected 22 columns, got 1. (['x'])'')
   \<and> validate_csv plain_lib (csv_text [''x'', []]) \<noteq>
       Inr (invalid ''CSV parsing error: list index out of range'')"
  by code_simp

section \<open>A claim about the handler\<close>

text \<open>
  C9 (amended). When the request has no \<^verbatim>\<open>user_id\<close> and the validation succeeds, the
  handler builds the storage key \<^verbatim>\<open>None/{session_id}.csv\<close> and asks the storage client
  for one put under that key. When the put returns, the response has status 200 and
  carries the key; when the put raises, the response has status 500 and carries no key.
\<close>

theorem lambda_handler_key_without_user_id:
  assumes "event ''user_id'' = None"
    and "decoded_csv env event = Inr csv_data"
    and "validate_csv (pylib env) csv_data = Inr v" and "valid v"
  shows "\<exists>request.
      snd (lambda_handler env event) = [request]
    \<and> Key request = ''None/''
        @ (case event ''session_id'' of None \<Rightarrow> session_token env | Some s \<Rightarrow> s) @ ''.csv''
    \<and> (put_object env request = None \<longrightarrow>
          statusCode (fst (lambda_handler env event)) = 200
        \<and> map_of (body (fst (lambda_handler env event))) ''s3_key'' = Some (JStr (Key request)))
    \<and> (put_object env request \<noteq> None \<longrightarrow>
          statusCode (fst (lambda_handler env event)) = 500
        \<and> map_of (body (fst (lambda_handler env event))) ''s3_key'' = None)"
  using assms
  by (cases "put_object env
        \<lparr>Bucket = BUCKET_NAME,
         Key = ''None/'' @ (case event ''session_id'' of None \<Rightarrow> session_token env | Some s \<Rightarrow> s) @ ''.csv'',
         Body = csv_data, ContentType = ''text/csv'',
         Metadata = [(''session_id'', (case event ''session_id'' of None \<Rightarrow> session_token env | Some s \<Rightarrow> s)),
                     (''row_count'', str_int_opt (row_count v)),
                     (''upload_timestamp'', utcnow_iso env)]\<rparr>")
     (simp_all add: lambda_handler_def Let_def str_opt_def error_response_def)

theorem lambda_handler_key_without_user_id_witness:
  "test_event ''user_id'' = None
   \<and> decoded_csv (test_env (\<lambda>r. None)) test_event = Inr (csv_text [good_line])
   \<and> validate_csv plain_lib (csv_text [good_line]) =
       Inr \<lparr>valid = True, error = None, row_count = Some 1\<rparr>
   \<and> statusCode (fst (lambda_handler (test_env (\<lambda>r. None)) test_event)) = 200
   \<and> map_of (body (fst (lambda_handler (test_env (\<lambda>r. None)) test_event))) ''s3_key'' =
       Some (JStr ''None/s1.csv'')
   \<and> map Key (snd (lambda_handler (test_env (\<lambda>r. None)) test_event)) = [''None/s1.csv'']"
proof -
  have u: "test_event ''user_id'' = None"
    by (simp add: test_event_def)
  have d: "decoded_csv (test_env (\<lambda>r. None)) test_event = Inr (csv_text [good_line])"
    by code_simp
  have v: "validate_csv (pylib (test_env (\<lambda>r. None))) (csv_text [good_line]) =
       Inr \<lparr>valid = True, error = None, row_count = Some 1\<rparr>"
    by code_simp
  have ok: "valid \<lparr>valid = True, error = None, row_count = Some 1\<rparr>"
    by simp
  have s: "test_event ''session_id'' = Some ''s1''"
    by (simp add: test_event_def)
  have p: "put_object (test_env (\<lambda>r. None)) request = None" for request
    by (simp add: test_env_def)
  from lambda_handler_key_without_user_id [OF u d v ok] s p
  obtain request where "snd (lambda_handler (test_env (\<lambda>r. None)) test_event) = [request]"
    "Key request = ''None/s1.csv''"
    "statusCode (fst (lambda_handler (test_env (\<lambda>r. None)) test_event)) = 200"
    "map_of (body (fst (lambda_handler (test_env (\<lambda>r. None)) test_event))) ''s3_key'' =
       Some (JStr (Key request))"
    by auto
  with u d v show ?thesis
    by (simp add: test_env_def)
qed

text \<open>
  The claim as stated (the handler returns the key) fails when the storage client
  refuses the put: the response is the error response of status 500.
\<close>

theorem lambda_handler_key_without_user_id_counterexample:
  "test_event ''user_id'' = None
   \<and> validate_csv plain_lib (csv_text [good_line]) =
       Inr \<lparr>valid = True, error = None, row_count = Some 1\<rparr>
   \<and> fst (lambda_handler (test_env (\<lambda>r. Some ''AccessDenied'')) test_event) =
       error_response 500 ''S3 upload failed: AccessDenied''
   \<and> map_of (body (fst (lambda_handler (test_env (\<lambda>r. Some ''AccessDenied'')) test_event)))
        ''s3_key'' = None"
  by code_simp

end
